theory Spec2Isabelle
  imports Complex_Main "HOL-Library.Log_Nat" "HOL-Library.Sublist"
begin

section \<open>Python values used by \<open>ek_geo/datastructs.py\<close>\<close>

text \<open>
  The module computes with Python floats. A finite float is a rational number, so
  coordinates and distances are values of type \<^typ>\<open>rat\<close>; NaN, the infinities and
  the sign of zero are outside the model. Every arithmetic operation of the source
  returns the exact result rounded to a float: the rounding is the parameter
  \<open>rnd\<close> of the operations below, so that a statement proved for every \<open>rnd\<close>
  holds whatever the rounding is, \<open>rnd = (\<lambda>x. x)\<close> is exact arithmetic, and
  \<open>rnd = binary64\<close> (defined below) is what CPython computes as long as no result
  overflows or falls into the subnormal range.
\<close>

datatype error = ZeroDivisionError | IndexError | ValueError

text \<open>\<open>int(x)\<close> on a float truncates towards zero.\<close>

definition py_int :: "rat \<Rightarrow> int" where
  "py_int x = (if 0 \<le> x then \<lfloor>x\<rfloor> else \<lceil>x\<rceil>)"

text \<open>C's \<open>fmod\<close>: the remainder has the sign of the dividend and is exact.\<close>

definition c_fmod :: "rat \<Rightarrow> rat \<Rightarrow> rat" where
  "c_fmod x y = x - of_int (py_int (x / y)) * y"

text \<open>
  \<open>vx // wx\<close> on floats, as CPython computes it: the quotient is recovered from
  \<open>fmod\<close>, moved down by one when the remainder and the divisor differ in sign, and
  snapped to the nearest integral value.
\<close>

definition float_floordiv :: "(rat \<Rightarrow> rat) \<Rightarrow> rat \<Rightarrow> rat \<Rightarrow> error + rat" where
  "float_floordiv rnd vx wx =
     (if wx = 0 then Inl ZeroDivisionError
      else
        let md = c_fmod vx wx;
            dv0 = rnd (rnd (vx - md) / wx);
            dv = (if md \<noteq> 0 \<and> (wx < 0) \<noteq> (md < 0) then rnd (dv0 - 1) else dv0);
            fl = of_int \<lfloor>dv\<rfloor>
        in Inr (if dv \<noteq> 0
                then (if 1 / 2 < rnd (dv - fl) then rnd (fl + 1) else fl)
                else 0))"

text \<open>\<open>a / n\<close> for a float \<open>a\<close> and an int \<open>n\<close>: the int is converted to a float first.\<close>

definition float_truediv_int :: "(rat \<Rightarrow> rat) \<Rightarrow> rat \<Rightarrow> int \<Rightarrow> error + rat" where
  "float_truediv_int rnd a n =
     (let b = rnd (of_int n)
      in if b = 0 then Inl ZeroDivisionError else Inr (rnd (a / b)))"

text \<open>\<open>i / n\<close> for two ints: the exact quotient, rounded once.\<close>

definition int_truediv :: "(rat \<Rightarrow> rat) \<Rightarrow> int \<Rightarrow> int \<Rightarrow> error + rat" where
  "int_truediv rnd i n =
     (if n = 0 then Inl ZeroDivisionError else Inr (rnd (of_int i / of_int n)))"

subsection \<open>Rounding to binary64\<close>

text \<open>Round to the nearest integer, ties to the even one.\<close>

definition rne :: "rat \<Rightarrow> int" where
  "rne x = (let f = \<lfloor>x\<rfloor>; r = x - of_int f
            in if r < 1 / 2 then f else if 1 / 2 < r then f + 1
               else if even f then f else f + 1)"

text \<open>The binary exponent of a non-zero \<open>x\<close>: \<open>2 ^ e \<le> \<bar>x\<bar> < 2 ^ (e + 1)\<close>.\<close>

definition expo2 :: "rat \<Rightarrow> int" where
  "expo2 x = (let a = \<bar>x\<bar>
              in if 1 \<le> a then int (floorlog 2 (nat \<lfloor>a\<rfloor>)) - 1
                 else - int (floorlog 2 (nat (\<lceil>1 / a\<rceil> - 1))))"

text \<open>
  Round to 53 significant bits, ties to even (the exponent range is not bounded: no
  overflow and no subnormal numbers).
\<close>

definition binary64 :: "rat \<Rightarrow> rat" where
  "binary64 x = (if x = 0 then 0
                 else let s = 2 powi (expo2 x - 52) in of_int (rne (x / s)) * s)"

section \<open>Data model\<close>

text \<open>
  \<open>class Point(BaseModel)\<close> with \<open>lon: float\<close>, \<open>lat: float\<close>, \<open>aux: dict\<close>;
  \<open>class Coords(BaseModel)\<close> with \<open>coords: List[Point]\<close>;
  \<open>class Bounds(BaseModel)\<close> with \<open>lo: Point\<close>, \<open>hi: Point\<close>.
  The values stored in \<open>aux\<close> are of any type \<open>'v\<close>.
\<close>

record 'v Point =
  lon :: rat
  lat :: rat
  aux :: "string \<rightharpoonup> 'v"

record 'v Coords =
  coords :: "'v Point list"

record 'v Bounds =
  lo :: "'v Point"
  hi :: "'v Point"

text \<open>
  \<open>Point(lon=..., lat=..., aux=...)\<close>: the class declares two float fields and no
  validator, so construction from floats stores them as they are.
\<close>

definition Point_init :: "rat \<Rightarrow> rat \<Rightarrow> (string \<rightharpoonup> 'v) \<Rightarrow> error + 'v Point" where
  "Point_init x y a = Inr \<lparr>lon = x, lat = y, aux = a\<rparr>"

text \<open>The subscripts that \<open>__getitem__\<close> tells apart with \<open>isinstance\<close>.\<close>

datatype subscript =
  IntKey int
  | StrKey string
  | SliceKey "int option" "int option" "int option"
  | OtherKey

datatype 'v pyval = FloatVal rat | AuxVal 'v | NoneVal

section \<open>Point\<close>

text \<open>
  \<open>Point.__getitem__\<close> (lines 12 to 21). A subscript that is neither an int nor a
  str falls through both branches and the method returns \<open>None\<close>; \<open>dict.get\<close>
  returns \<open>None\<close> for a missing key.
\<close>

fun Point_getitem :: "'v Point \<Rightarrow> subscript \<Rightarrow> 'v pyval" where
  "Point_getitem p (IntKey idx) = (if idx = 0 then FloatVal (lon p) else FloatVal (lat p))"
| "Point_getitem p (StrKey idx) =
     (if idx = ''lon'' then FloatVal (lon p)
      else if idx = ''lat'' then FloatVal (lat p)
      else (case aux p idx of None \<Rightarrow> NoneVal | Some v \<Rightarrow> AuxVal v))"
| "Point_getitem p _ = NoneVal"

definition lonlat :: "'v Point \<Rightarrow> rat \<times> rat" where
  "lonlat p = (lon p, lat p)"

definition latlon :: "'v Point \<Rightarrow> rat \<times> rat" where
  "latlon p = (lat p, lon p)"

text \<open>
  \<open>geopy.distance.distance\<close> is a library outside the repository. It is the parameter
  \<open>geo\<close> of everything that measures: it takes two (latitude, longitude) pairs and
  returns the distance in kilometres, or fails.
\<close>

type_synonym geodesic = "rat \<times> rat \<Rightarrow> rat \<times> rat \<Rightarrow> error + rat"

definition distance :: "geodesic \<Rightarrow> 'v Point \<Rightarrow> 'v Point \<Rightarrow> error + rat" where
  "distance geo p other = geo (latlon p) (latlon other)"

section \<open>Bounds\<close>

text \<open>\<open>Bounds.from_points\<close> (lines 122 to 125).\<close>

definition from_points :: "'v Point \<Rightarrow> 'v Point \<Rightarrow> 'w Bounds" where
  "from_points ul lr =
     \<lparr>lo = \<lparr>lon = min (lon ul) (lon lr), lat = min (lat ul) (lat lr), aux = Map.empty\<rparr>,
      hi = \<lparr>lon = max (lon ul) (lon lr), lat = max (lat ul) (lat lr), aux = Map.empty\<rparr>\<rparr>"

text \<open>\<open>Bounds.get_wh\<close> (lines 127 to 130): the height is measured first.\<close>

definition get_wh :: "geodesic \<Rightarrow> 'v Bounds \<Rightarrow> error + (rat \<times> rat)" where
  "get_wh geo b =
     (case geo (latlon (lo b)) (lat (hi b), lon (lo b)) of
        Inl e \<Rightarrow> Inl e
      | Inr height \<Rightarrow>
          (case geo (latlon (lo b)) (lat (lo b), lon (hi b)) of
             Inl e \<Rightarrow> Inl e
           | Inr width \<Rightarrow> Inr (width, height)))"

text \<open>
  Lines 133 and 134 of \<open>Bounds.sample\<close>, the same as lines 58 and 59 of
  \<open>Coords.sample\<close>:
  \<open>wcnt, hcnt = int(width.km // interval.km), int(height.km // interval.km)\<close>.
\<close>

definition grid_counts ::
  "(rat \<Rightarrow> rat) \<Rightarrow> geodesic \<Rightarrow> 'v Bounds \<Rightarrow> rat \<Rightarrow> error + (int \<times> int)" where
  "grid_counts rnd geo b interval_km =
     (case get_wh geo b of
        Inl e \<Rightarrow> Inl e
      | Inr (width, height) \<Rightarrow>
          (case float_floordiv rnd width interval_km of
             Inl e \<Rightarrow> Inl e
           | Inr qw \<Rightarrow>
               (case float_floordiv rnd height interval_km of
                  Inl e \<Rightarrow> Inl e
                | Inr qh \<Rightarrow> Inr (py_int qw, py_int qh))))"

text \<open>
  \<open>lo + (k / cnt) * (hi - lo)\<close>, the expression of lines 137 and 139, with every
  operation rounded.
\<close>

definition interpolate :: "(rat \<Rightarrow> rat) \<Rightarrow> rat \<Rightarrow> rat \<Rightarrow> int \<Rightarrow> int \<Rightarrow> error + rat" where
  "interpolate rnd l h k cnt =
     (case int_truediv rnd k cnt of
        Inl e \<Rightarrow> Inl e
      | Inr t \<Rightarrow> Inr (rnd (l + rnd (t * rnd (h - l)))))"

text \<open>The inner loop of \<open>Bounds.sample\<close> (lines 138 to 140), appending to \<open>acc\<close>.\<close>

fun sample_row ::
  "(rat \<Rightarrow> rat) \<Rightarrow> 'v Bounds \<Rightarrow> int \<Rightarrow> rat \<Rightarrow> nat list \<Rightarrow> 'w Point list
     \<Rightarrow> error + 'w Point list" where
  "sample_row rnd b wcnt y [] acc = Inr acc"
| "sample_row rnd b wcnt y (j # js) acc =
     (case interpolate rnd (lon (lo b)) (lon (hi b)) (int j) wcnt of
        Inl e \<Rightarrow> Inl e
      | Inr x \<Rightarrow> sample_row rnd b wcnt y js (acc @ [\<lparr>lon = x, lat = y, aux = Map.empty\<rparr>]))"

text \<open>The outer loop of \<open>Bounds.sample\<close> (lines 136 to 140).\<close>

fun sample_rows ::
  "(rat \<Rightarrow> rat) \<Rightarrow> 'v Bounds \<Rightarrow> int \<Rightarrow> int \<Rightarrow> nat list \<Rightarrow> 'w Point list
     \<Rightarrow> error + 'w Point list" where
  "sample_rows rnd b wcnt hcnt [] acc = Inr acc"
| "sample_rows rnd b wcnt hcnt (i # is) acc =
     (case interpolate rnd (lat (lo b)) (lat (hi b)) (int i) hcnt of
        Inl e \<Rightarrow> Inl e
      | Inr y \<Rightarrow>
          (case sample_row rnd b wcnt y [0..<nat wcnt] acc of
             Inl e \<Rightarrow> Inl e
           | Inr acc' \<Rightarrow> sample_rows rnd b wcnt hcnt is acc'))"

text \<open>
  \<open>Bounds.sample\<close> (lines 132 to 141). \<open>range(n)\<close> is empty for \<open>n \<le> 0\<close>, as
  \<open>[0..<nat n]\<close> is.
\<close>

definition Bounds_sample ::
  "(rat \<Rightarrow> rat) \<Rightarrow> geodesic \<Rightarrow> 'v Bounds \<Rightarrow> rat \<Rightarrow> error + 'w Coords" where
  "Bounds_sample rnd geo b interval_km =
     (case grid_counts rnd geo b interval_km of
        Inl e \<Rightarrow> Inl e
      | Inr (wcnt, hcnt) \<Rightarrow>
          (case sample_rows rnd b wcnt hcnt [0..<nat hcnt] [] of
             Inl e \<Rightarrow> Inl e
           | Inr ps \<Rightarrow> Inr \<lparr>coords = ps\<rparr>))"

section \<open>Coords\<close>

text \<open>\<open>Coords.append\<close> (lines 39 and 40).\<close>

definition append_point :: "'v Coords \<Rightarrow> 'v Point \<Rightarrow> 'v Coords" where
  "append_point c p = c\<lparr>coords := coords c @ [p]\<rparr>"



text \<open>
  Lines 62 to 65 of \<open>Coords.sample\<close>: the cell index of a point. The tuple is
  evaluated from left to right, so a failure of the first division is the one raised.
\<close>

definition cell_index ::
  "(rat \<Rightarrow> rat) \<Rightarrow> rat \<Rightarrow> rat \<Rightarrow> rat \<Rightarrow> rat \<Rightarrow> 'v Point \<Rightarrow> error + (int \<times> int)" where
  "cell_index rnd ul_lat ul_lon lat_iv lon_iv point =
     (case float_floordiv rnd (rnd (lat point - ul_lat)) lat_iv of
        Inl e \<Rightarrow> Inl e
      | Inr qi \<Rightarrow>
          (case float_floordiv rnd (rnd (lon point - ul_lon)) lon_iv of
             Inl e \<Rightarrow> Inl e
           | Inr qj \<Rightarrow> Inr (py_int qi, py_int qj)))"

text \<open>The loop of \<open>Coords.sample\<close> (lines 61 to 67), appending to \<open>acc\<close>.\<close>

fun sample_loop ::
  "(rat \<Rightarrow> rat) \<Rightarrow> rat \<Rightarrow> rat \<Rightarrow> rat \<Rightarrow> rat \<Rightarrow> int \<Rightarrow> int \<Rightarrow> 'v Point list
     \<Rightarrow> 'v Point list \<Rightarrow> error + 'v Point list" where
  "sample_loop rnd ul_lat ul_lon lat_iv lon_iv w_len h_len [] acc = Inr acc"
| "sample_loop rnd ul_lat ul_lon lat_iv lon_iv w_len h_len (point # rest) acc =
     (case cell_index rnd ul_lat ul_lon lat_iv lon_iv point of
        Inl e \<Rightarrow> Inl e
      | Inr (i, j) \<Rightarrow>
          sample_loop rnd ul_lat ul_lon lat_iv lon_iv w_len h_len rest
            (if 0 \<le> i \<and> i < h_len \<and> 0 \<le> j \<and> j < w_len then acc @ [point] else acc))"

text \<open>Line 60 of \<open>Coords.sample\<close>: the cell sizes, the latitude one first.\<close>

definition cell_sizes ::
  "(rat \<Rightarrow> rat) \<Rightarrow> 'v Bounds \<Rightarrow> int \<Rightarrow> int \<Rightarrow> error + (rat \<times> rat)" where
  "cell_sizes rnd b w_len h_len =
     (case float_truediv_int rnd (rnd (lat (hi b) - lat (lo b))) h_len of
        Inl e \<Rightarrow> Inl e
      | Inr lat_iv \<Rightarrow>
          (case float_truediv_int rnd (rnd (lon (hi b) - lon (lo b))) w_len of
             Inl e \<Rightarrow> Inl e
           | Inr lon_iv \<Rightarrow> Inr (lat_iv, lon_iv)))"

text \<open>\<open>Coords.sample\<close> (lines 54 to 68).\<close>

definition Coords_sample ::
  "(rat \<Rightarrow> rat) \<Rightarrow> geodesic \<Rightarrow> 'v Coords \<Rightarrow> 'w Bounds \<Rightarrow> rat \<Rightarrow> error + 'v Coords" where
  "Coords_sample rnd geo c b interval_km =
     (case grid_counts rnd geo b interval_km of
        Inl e \<Rightarrow> Inl e
      | Inr (w_len, h_len) \<Rightarrow>
          (case cell_sizes rnd b w_len h_len of
             Inl e \<Rightarrow> Inl e
           | Inr (lat_iv, lon_iv) \<Rightarrow>
               (case sample_loop rnd (lat (lo b)) (lon (lo b)) lat_iv lon_iv w_len h_len
                       (coords c) [] of
                  Inl e \<Rightarrow> Inl e
                | Inr acc \<Rightarrow> Inr \<lparr>coords = acc\<rparr>)))"

text \<open>
  A subscript on a Python list: an index from \<open>-len\<close> to \<open>-1\<close> counts from the end,
  and an index outside \<open>[-len, len)\<close> raises \<open>IndexError\<close>.
\<close>

definition list_getitem :: "'a list \<Rightarrow> int \<Rightarrow> error + 'a" where
  "list_getitem xs idx =
     (let n = int (length xs); k = (if idx < 0 then idx + n else idx)
      in if 0 \<le> k \<and> k < n then Inr (xs ! nat k) else Inl IndexError)"

text \<open>
  A slice of a Python list: the bounds are clipped as \<open>slice.indices\<close> does, and a
  step of zero raises \<open>ValueError\<close>.
\<close>

definition clip_bound :: "int \<Rightarrow> int \<Rightarrow> int \<Rightarrow> int \<Rightarrow> int" where
  "clip_bound n lower upper s = (if s < 0 then max (s + n) lower else min s upper)"

definition list_getslice ::
  "'a list \<Rightarrow> int option \<Rightarrow> int option \<Rightarrow> int option \<Rightarrow> error + 'a list" where
  "list_getslice xs start stop step =
     (let n = int (length xs);
          st = (case step of None \<Rightarrow> 1 | Some s \<Rightarrow> s)
      in if st = 0 then Inl ValueError
         else
           let lower = (if st < 0 then - 1 else 0);
               upper = (if st < 0 then n - 1 else n);
               a = (case start of
                      None \<Rightarrow> (if st < 0 then upper else lower)
                    | Some s \<Rightarrow> clip_bound n lower upper s);
               z = (case stop of
                      None \<Rightarrow> (if st < 0 then lower else upper)
                    | Some s \<Rightarrow> clip_bound n lower upper s);
               cnt = (if 0 < st then (if a < z then (z - a - 1) div st + 1 else 0)
                      else (if z < a then (a - z - 1) div (- st) + 1 else 0))
           in Inr (map (\<lambda>k. xs ! nat (a + int k * st)) [0..<nat cnt]))"

datatype 'v item = ItemPoint "'v Point" | ItemCoords "'v Coords" | ItemNone

text \<open>
  \<open>Coords.__getitem__\<close> (lines 104 to 108): an int goes to the list's own subscript,
  a slice gives a new \<open>Coords\<close>, anything else falls through and returns \<open>None\<close>.
\<close>

fun Coords_getitem :: "'v Coords \<Rightarrow> subscript \<Rightarrow> error + 'v item" where
  "Coords_getitem c (IntKey idx) =
     (case list_getitem (coords c) idx of
        Inl e \<Rightarrow> Inl e
      | Inr p \<Rightarrow> Inr (ItemPoint p))"
| "Coords_getitem c (SliceKey start stop step) =
     (case list_getslice (coords c) start stop step of
        Inl e \<Rightarrow> Inl e
      | Inr ps \<Rightarrow> Inr (ItemCoords \<lparr>coords = ps\<rparr>))"
| "Coords_getitem c _ = Inr ItemNone"

definition Coords_len :: "'v Coords \<Rightarrow> int" where
  "Coords_len c = int (length (coords c))"

text \<open>
  A stand-in for the geodesic in closed examples: a degree of latitude counts 110.5 km
  and a degree of longitude 111.25 km, about their lengths at the equator.
\<close>

definition equator_km :: geodesic where
  "equator_km a b =
     Inr (221 / 2 * \<bar>fst a - fst b\<bar> + 445 / 4 * \<bar>snd a - snd b\<bar>)"

section \<open>Subscripts and construction\<close>

text \<open>
  C10. \<open>Point.__getitem__\<close> returns a value for every subscript: index \<open>0\<close> gives
  \<open>lon\<close>, every other integer (negative or large) gives \<open>lat\<close>, and a string other
  than \<open>"lon"\<close> and \<open>"lat"\<close> gives the entry of \<open>aux\<close> at that key, or \<open>None\<close> when
  there is none. The function has no failing branch.
\<close>

theorem Point_getitem_total:
  "Point_getitem p (IntKey 0) = FloatVal (lon p) \<and>
   (idx \<noteq> 0 \<longrightarrow> Point_getitem p (IntKey idx) = FloatVal (lat p)) \<and>
   (key \<noteq> ''lon'' \<and> key \<noteq> ''lat'' \<longrightarrow>
      (aux p key = None \<longrightarrow> Point_getitem p (StrKey key) = NoneVal) \<and>
      (\<forall>v. aux p key = Some v \<longrightarrow> Point_getitem p (StrKey key) = AuxVal v))"
  by simp

theorem Point_getitem_total_witness:
  "Point_getitem \<lparr>lon = 3, lat = 4, aux = [''idx'' \<mapsto> (7::int)]\<rparr> (IntKey (- 5)) = FloatVal 4 \<and>
   Point_getitem \<lparr>lon = 3, lat = 4, aux = [''idx'' \<mapsto> (7::int)]\<rparr> (StrKey ''idx'') = AuxVal 7 \<and>
   Point_getitem \<lparr>lon = 3, lat = 4, aux = [''idx'' \<mapsto> (7::int)]\<rparr> (StrKey ''name'') = NoneVal"
  using Point_getitem_total [of "\<lparr>lon = 3, lat = 4, aux = [''idx'' \<mapsto> (7::int)]\<rparr>" "- 5" "''idx''"]
    Point_getitem_total [of "\<lparr>lon = 3, lat = 4, aux = [''idx'' \<mapsto> (7::int)]\<rparr>" "- 5" "''name''"]
  by simp

text \<open>
  C6, as the code has it. \<open>Coords.__getitem__\<close> hands an int to the subscript of
  the underlying list: for \<open>0 \<le> idx < len(s)\<close> it returns the point at position
  \<open>idx\<close>, for \<open>-len(s) \<le> idx < 0\<close> the point at position \<open>len(s) + idx\<close>, and it
  fails with \<open>IndexError\<close> exactly when \<open>idx < -len(s)\<close> or \<open>len(s) \<le> idx\<close>.
\<close>

theorem Coords_getitem_int:
  "(0 \<le> idx \<and> idx < Coords_len s \<longrightarrow>
      Coords_getitem s (IntKey idx) = Inr (ItemPoint (coords s ! nat idx))) \<and>
   (- Coords_len s \<le> idx \<and> idx < 0 \<longrightarrow>
      Coords_getitem s (IntKey idx) = Inr (ItemPoint (coords s ! nat (Coords_len s + idx)))) \<and>
   (idx < - Coords_len s \<or> Coords_len s \<le> idx \<longrightarrow>
      Coords_getitem s (IntKey idx) = Inl IndexError)"
  by (auto simp: list_getitem_def Coords_len_def Let_def add.commute)

theorem Coords_getitem_int_witness:
  "Coords_getitem
     \<lparr>coords = [\<lparr>lon = 1, lat = 2, aux = (Map.empty :: string \<rightharpoonup> int)\<rparr>,
                \<lparr>lon = 3, lat = 4, aux = Map.empty\<rparr>]\<rparr> (IntKey 1)
     = Inr (ItemPoint \<lparr>lon = 3, lat = 4, aux = Map.empty\<rparr>) \<and>
   Coords_getitem
     \<lparr>coords = [\<lparr>lon = 1, lat = 2, aux = (Map.empty :: string \<rightharpoonup> int)\<rparr>,
                \<lparr>lon = 3, lat = 4, aux = Map.empty\<rparr>]\<rparr> (IntKey (- 2))
     = Inr (ItemPoint \<lparr>lon = 1, lat = 2, aux = Map.empty\<rparr>) \<and>
   Coords_getitem
     \<lparr>coords = [\<lparr>lon = 1, lat = 2, aux = (Map.empty :: string \<rightharpoonup> int)\<rparr>,
                \<lparr>lon = 3, lat = 4, aux = Map.empty\<rparr>]\<rparr> (IntKey 2)
     = Inl IndexError"
  using
    Coords_getitem_int [of 1 "\<lparr>coords = [\<lparr>lon = 1, lat = 2, aux = (Map.empty :: string \<rightharpoonup> int)\<rparr>,
                \<lparr>lon = 3, lat = 4, aux = Map.empty\<rparr>]\<rparr>"]
    Coords_getitem_int [of "- 2" "\<lparr>coords = [\<lparr>lon = 1, lat = 2, aux = (Map.empty :: string \<rightharpoonup> int)\<rparr>,
                \<lparr>lon = 3, lat = 4, aux = Map.empty\<rparr>]\<rparr>"]
    Coords_getitem_int [of 2 "\<lparr>coords = [\<lparr>lon = 1, lat = 2, aux = (Map.empty :: string \<rightharpoonup> int)\<rparr>,
                \<lparr>lon = 3, lat = 4, aux = Map.empty\<rparr>]\<rparr>"]
  by (simp add: Coords_len_def)

text \<open>
  The index \<open>-1\<close> lies outside \<open>[0, len(s))\<close>, and the subscript returns the last
  point instead of failing.
\<close>

theorem Coords_getitem_negative_counterexample:
  "\<not> (0 \<le> (- 1 :: int)) \<and>
   Coords_getitem \<lparr>coords = [\<lparr>lon = 1, lat = 2, aux = (Map.empty :: string \<rightharpoonup> int)\<rparr>]\<rparr>
       (IntKey (- 1))
     = Inr (ItemPoint \<lparr>lon = 1, lat = 2, aux = Map.empty\<rparr>)"
  by (simp add: list_getitem_def)

text \<open>
  C5, as the code has it. Constructing a \<open>Point\<close> from any two finite floats
  succeeds and stores them unchanged: there is no range check on longitude or
  latitude.
\<close>

theorem Point_init_accepts:
  "\<exists>p. Point_init x y a = Inr p \<and> lon p = x \<and> lat p = y \<and> aux p = a"
  by (simp add: Point_init_def)

text \<open>
  A longitude of 200 and a latitude of 100 are out of range, and the point is
  constructed.
\<close>

theorem Point_init_counterexample:
  "(180 :: rat) < 200 \<and> (90 :: rat) < 100 \<and>
   Point_init 200 100 (Map.empty :: string \<rightharpoonup> int)
     = Inr \<lparr>lon = 200, lat = 100, aux = Map.empty\<rparr>"
  by (simp add: Point_init_def)

section \<open>Bounds of a point set\<close>







section \<open>Float operations\<close>

text \<open>
  In exact arithmetic the floor division of CPython returns the floor of the quotient.
\<close>

lemma c_fmod_sign:
  assumes "wx \<noteq> 0"
  shows "c_fmod vx wx = (vx / wx - of_int (py_int (vx / wx))) * wx"
  using assms by (simp add: c_fmod_def algebra_simps)

lemma frac_sign_pos: "0 \<le> (q::rat) \<Longrightarrow> 0 \<le> q - of_int (py_int q) \<and> q - of_int (py_int q) < 1"
  by (simp add: py_int_def) linarith

lemma frac_sign_neg: "(q::rat) < 0 \<Longrightarrow> q - of_int (py_int q) \<le> 0 \<and> -1 < q - of_int (py_int q)"
  by (simp add: py_int_def) linarith

lemma floordiv_quot:
  fixes vx wx :: rat
  assumes "wx \<noteq> 0"
  defines "q \<equiv> vx / wx"
  defines "md \<equiv> c_fmod vx wx"
  shows "(if md \<noteq> 0 \<and> (wx < 0) \<noteq> (md < 0) then of_int (py_int q) - 1 else of_int (py_int q)) = (of_int \<lfloor>q\<rfloor> :: rat)"
proof -
  have md: "md = (q - of_int (py_int q)) * wx"
    unfolding md_def q_def using assms(1) by (rule c_fmod_sign)
  show ?thesis
  proof (cases "0 \<le> q")
    case True
    then have r: "0 \<le> q - of_int (py_int q)" using frac_sign_pos by blast
    have "\<not> (md \<noteq> 0 \<and> (wx < 0) \<noteq> (md < 0))"
      using r assms(1) unfolding md
      by (auto simp: mult_less_0_iff zero_less_mult_iff not_less mult_le_0_iff zero_le_mult_iff)
    then show ?thesis using True by (simp add: py_int_def)
  next
    case False
    then have r: "q - of_int (py_int q) \<le> 0" using frac_sign_neg by (simp add: not_le)
    show ?thesis
    proof (cases "q - of_int (py_int q) = 0")
      case True
      then have "md = 0" by (simp add: md)
      moreover have "q = of_int (py_int q)" using True by simp
      then have "of_int \<lfloor>q\<rfloor> = (of_int (py_int q) :: rat)"
        by (metis floor_of_int)
      ultimately show ?thesis by simp
    next
      case F2: False
      then have neg: "q - of_int (py_int q) < 0" using r by simp
      have "md \<noteq> 0 \<and> (wx < 0) \<noteq> (md < 0)"
        using neg assms(1) unfolding md
        by (auto simp: mult_less_0_iff zero_less_mult_iff not_less mult_le_0_iff zero_le_mult_iff)
      moreover have "of_int \<lceil>q\<rceil> - 1 = (of_int \<lfloor>q\<rfloor> :: rat)"
        using neg False by (simp add: py_int_def ceiling_altdef split: if_splits)
      ultimately show ?thesis using False by (simp add: py_int_def)
    qed
  qed
qed

lemma float_floordiv_exact:
  assumes "wx \<noteq> 0"
  shows "float_floordiv (\<lambda>x. x) vx wx = Inr (of_int \<lfloor>vx / wx\<rfloor>)"
proof -
  have q: "(vx - c_fmod vx wx) / wx = of_int (py_int (vx / wx))"
    using assms by (simp add: c_fmod_def)
  have dv: "(if c_fmod vx wx \<noteq> 0 \<and> (wx < 0) \<noteq> (c_fmod vx wx < 0)
             then (vx - c_fmod vx wx) / wx - 1 else (vx - c_fmod vx wx) / wx)
            = of_int \<lfloor>vx / wx\<rfloor>"
    unfolding q using floordiv_quot [OF assms, of vx] by simp
  show ?thesis
    unfolding float_floordiv_def Let_def dv using assms by simp
qed

text \<open>
  Whatever the rounding, a floor division fails only on a zero divisor.
\<close>

lemma float_floordiv_Inr:
  "wx \<noteq> 0 \<Longrightarrow> \<exists>q. float_floordiv rnd vx wx = Inr q"
  by (simp add: float_floordiv_def Let_def)

lemma float_floordiv_zero_divisor:
  "float_floordiv rnd vx 0 = Inl ZeroDivisionError"
  by (simp add: float_floordiv_def)

lemma float_floordiv_error:
  "float_floordiv rnd vx wx = Inl e \<Longrightarrow> wx = 0 \<and> e = ZeroDivisionError"
  by (simp add: float_floordiv_def Let_def split: if_splits)

lemma float_floordiv_of_zero:
  "rnd 0 = 0 \<Longrightarrow> wx \<noteq> 0 \<Longrightarrow> float_floordiv rnd 0 wx = Inr 0"
  by (simp add: float_floordiv_def Let_def c_fmod_def py_int_def)

subsection \<open>Properties of the rounding to binary64\<close>

text \<open>
  The rounding \<open>binary64\<close> moves a value by at most the fraction \<open>2 ^ -53\<close> of its
  magnitude, maps only zero to zero and is monotone.
\<close>

lemma rne_error: "\<bar>of_int (rne x) - x\<bar> \<le> 1 / 2"
proof -
  have "of_int \<lfloor>x\<rfloor> \<le> x" "x < of_int \<lfloor>x\<rfloor> + 1" by linarith+
  then show ?thesis by (auto simp: rne_def Let_def)
qed

lemma rne_of_int: "rne (of_int k) = k"
  by (simp add: rne_def)

lemma rne_cases: "rne x = \<lfloor>x\<rfloor> \<or> rne x = \<lfloor>x\<rfloor> + 1"
  by (simp add: rne_def Let_def)

lemma rne_mono:
  assumes "x \<le> y"
  shows "rne x \<le> rne y"
proof -
  have fg: "\<lfloor>x\<rfloor> \<le> \<lfloor>y\<rfloor>" using assms by (rule floor_mono)
  show ?thesis
  proof (cases "\<lfloor>x\<rfloor> = \<lfloor>y\<rfloor>")
    case True
    then have "x - of_int \<lfloor>x\<rfloor> \<le> y - of_int \<lfloor>y\<rfloor>" using assms by simp
    then show ?thesis using True by (auto simp: rne_def Let_def)
  next
    case False
    then have "\<lfloor>x\<rfloor> + 1 \<le> \<lfloor>y\<rfloor>" using fg by simp
    moreover have "rne x \<le> \<lfloor>x\<rfloor> + 1" using rne_cases [of x] by auto
    moreover have "\<lfloor>y\<rfloor> \<le> rne y" using rne_cases [of y] by auto
    ultimately show ?thesis by linarith
  qed
qed

lemma rne_minus: "rne (- x) = - rne x"
proof (cases "x = of_int \<lfloor>x\<rfloor>")
  case True
  then obtain k where "x = of_int k" ..
  then show ?thesis by (simp add: rne_def flip: of_int_minus)
next
  case False
  then have c: "\<lceil>x\<rceil> = \<lfloor>x\<rfloor> + 1" by (simp add: ceiling_altdef)
  have f: "\<lfloor>- x\<rfloor> = - \<lfloor>x\<rfloor> - 1" using c by (simp add: ceiling_def)
  show ?thesis
    unfolding rne_def Let_def f by (auto simp: algebra_simps)
qed

lemma expo2_bounds:
  assumes "x \<noteq> 0"
  shows "2 powi expo2 x \<le> \<bar>x\<bar> \<and> \<bar>x\<bar> < 2 powi (expo2 x + 1)"
proof (cases "1 \<le> \<bar>x\<bar>")
  case True
  define n where "n = nat \<lfloor>\<bar>x\<bar>\<rfloor>"
  have n1: "1 \<le> n" using True by (simp add: n_def le_nat_iff)
  then have n0: "0 < n" by simp
  define k where "k = floorlog 2 n"
  have b: "2 ^ (k - 1) \<le> n" "n < 2 ^ k"
    using floorlog_bounds [of n 2] n0 by (simp_all add: k_def)
  have k1: "1 \<le> k" using n0 by (simp add: k_def floorlog_def)
  have e: "expo2 x = int k - 1" using True by (simp add: expo2_def Let_def n_def k_def)
  have nx: "rat_of_nat n \<le> \<bar>x\<bar>" "\<bar>x\<bar> < rat_of_nat n + 1"
    unfolding n_def using True by (simp_all add: of_nat_nat) linarith+
  have km: "int k - 1 = int (k - 1)" using k1 by simp
  have p1: "(2::rat) powi (int k - 1) = 2 ^ (k - 1)"
    unfolding km by simp
  have p2: "(2::rat) powi (int k - 1 + 1) = 2 ^ k"
    by simp
  have "(2::rat) ^ (k - 1) \<le> rat_of_nat n"
    using b(1) by (metis of_nat_le_iff of_nat_numeral of_nat_power)
  moreover have "rat_of_nat n + 1 \<le> 2 ^ k"
  proof -
    have "n + 1 \<le> 2 ^ k" using b(2) by simp
    then have "rat_of_nat (n + 1) \<le> rat_of_nat (2 ^ k)" by (simp only: of_nat_le_iff)
    then show ?thesis by simp
  qed
  ultimately show ?thesis using nx unfolding e p1 p2 by linarith
next
  case False
  define a where "a = \<bar>x\<bar>"
  have a: "0 < a" "a < 1" using assms False by (simp_all add: a_def)
  define y where "y = 1 / a"
  have y1: "1 < y" using a by (simp add: y_def)
  define m where "m = nat (\<lceil>y\<rceil> - 1)"
  have cy: "2 \<le> \<lceil>y\<rceil>" using y1 by linarith
  have m0: "0 < m" using cy by (simp add: m_def)
  have my: "rat_of_nat m < y" "y \<le> rat_of_nat m + 1"
    unfolding m_def using cy by (simp_all add: of_nat_nat) linarith+
  define k where "k = floorlog 2 m"
  have b: "2 ^ (k - 1) \<le> m" "m < 2 ^ k"
    using floorlog_bounds [of m 2] m0 by (simp_all add: k_def)
  have k1: "1 \<le> k" using m0 by (simp add: k_def floorlog_def)
  have e: "expo2 x = - int k"
    using False by (simp add: expo2_def Let_def m_def k_def y_def a_def)
  have p1: "(2::rat) powi (- int k) = 1 / 2 ^ k"
    by (simp add: power_int_minus inverse_eq_divide)
  have km: "- int k + 1 = - int (k - 1)" using k1 by simp
  have p2: "(2::rat) powi (- int k + 1) = 1 / 2 ^ (k - 1)"
    unfolding km by (simp add: power_int_minus inverse_eq_divide)
  have u: "y \<le> 2 ^ k"
  proof -
    have "m + 1 \<le> 2 ^ k" using b(2) by simp
    then have "rat_of_nat (m + 1) \<le> rat_of_nat (2 ^ k)" by (simp only: of_nat_le_iff)
    then show ?thesis using my(2) by simp
  qed
  have l: "2 ^ (k - 1) < y"
  proof -
    have "(2::rat) ^ (k - 1) \<le> rat_of_nat m"
      using b(1) by (metis of_nat_le_iff of_nat_numeral of_nat_power)
    then show ?thesis using my(1) by linarith
  qed
  have "1 / 2 ^ k \<le> a"
    using u a(1) by (simp add: y_def field_simps)
  moreover have "a < 1 / 2 ^ (k - 1)"
    using l a(1) by (simp add: y_def field_simps)
  ultimately show ?thesis unfolding e p1 p2 a_def by simp
qed

lemma binary64_scale:
  "(2::rat) powi (e - 52) = 2 powi e / 2 ^ 52"
  by (simp add: power_int_diff)

lemma binary64_error:
  "\<bar>binary64 x - x\<bar> \<le> \<bar>x\<bar> / 2 ^ 53"
proof (cases "x = 0")
  case True
  then show ?thesis by (simp add: binary64_def)
next
  case False
  define s :: rat where "s = 2 powi (expo2 x - 52)"
  have s0: "0 < s" by (simp add: s_def)
  have b: "binary64 x = of_int (rne (x / s)) * s"
    using False by (simp add: binary64_def Let_def s_def)
  have "\<bar>binary64 x - x\<bar> = \<bar>of_int (rne (x / s)) - x / s\<bar> * s"
  proof -
    have "binary64 x - x = (of_int (rne (x / s)) - x / s) * s"
      using s0 by (simp add: b algebra_simps)
    then show ?thesis using s0 by (simp add: abs_mult)
  qed
  also have "\<dots> \<le> 1 / 2 * s"
    using rne_error [of "x / s"] s0 by (intro mult_right_mono) simp_all
  also have "\<dots> = 2 powi expo2 x / 2 ^ 53"
    by (simp add: s_def binary64_scale)
  also have "\<dots> \<le> \<bar>x\<bar> / 2 ^ 53"
    using expo2_bounds [OF False] by (simp add: divide_right_mono)
  finally show ?thesis .
qed

lemma binary64_zero_iff: "binary64 x = 0 \<longleftrightarrow> x = 0"
proof
  assume "binary64 x = 0"
  with binary64_error [of x] have "\<bar>x\<bar> \<le> \<bar>x\<bar> / 2 ^ 53" by simp
  then have "\<bar>x\<bar> * 2 ^ 53 \<le> \<bar>x\<bar>" by (simp add: field_simps)
  then show "x = 0" by (cases "x = 0") (simp_all add: mult_le_cancel_left1)
next
  assume "x = 0"
  then show "binary64 x = 0" by (simp add: binary64_def)
qed

lemma expo2_minus: "expo2 (- x) = expo2 x"
  by (simp add: expo2_def)

lemma binary64_minus: "binary64 (- x) = - binary64 x"
  by (simp add: binary64_def Let_def expo2_minus rne_minus)

lemma binary64_nonneg:
  assumes "0 \<le> x"
  shows "0 \<le> binary64 x"
proof (cases "x = 0")
  case True
  then show ?thesis by (simp add: binary64_def)
next
  case False
  define s :: rat where "s = 2 powi (expo2 x - 52)"
  have s0: "0 < s" by (simp add: s_def)
  have "rne 0 \<le> rne (x / s)" using assms s0 by (intro rne_mono) simp
  then have "0 \<le> rne (x / s)" by (simp add: rne_def)
  then show ?thesis using False s0 by (simp add: binary64_def Let_def s_def)
qed

lemma rne_numeral_power: "rne (2 ^ n) = 2 ^ n"
  using rne_of_int [of "2 ^ n"] by simp

lemma binary64_binade:
  assumes "0 < x"
  shows "2 powi expo2 x \<le> binary64 x \<and> binary64 x \<le> 2 powi (expo2 x + 1)"
proof -
  have nz: "x \<noteq> 0" using assms by simp
  define s :: rat where "s = 2 powi (expo2 x - 52)"
  have s0: "0 < s" by (simp add: s_def)
  have b: "binary64 x = of_int (rne (x / s)) * s"
    using nz by (simp add: binary64_def Let_def s_def)
  have e: "2 powi expo2 x = 2 ^ 52 * s" "2 powi (expo2 x + 1) = 2 ^ 53 * s"
    by (simp_all add: s_def binary64_scale power_int_add)
  from expo2_bounds [OF nz] assms have "2 ^ 52 * s \<le> x" "x < 2 ^ 53 * s"
    unfolding e by simp_all
  then have m: "2 ^ 52 \<le> x / s" "x / s \<le> 2 ^ 53"
    using s0 by (simp_all add: field_simps)
  have "rne (2 ^ 52) \<le> rne (x / s)" "rne (x / s) \<le> rne (2 ^ 53)"
    using m by (auto intro: rne_mono)
  then have "2 ^ 52 \<le> rne (x / s)" "rne (x / s) \<le> 2 ^ 53"
    unfolding rne_numeral_power by simp_all
  then have "(2 ^ 52 :: rat) \<le> of_int (rne (x / s))" "of_int (rne (x / s)) \<le> (2 ^ 53 :: rat)"
    by (metis of_int_le_iff of_int_numeral of_int_power)+
  then show ?thesis unfolding e b using s0 by (simp add: mult_right_mono)
qed

lemma expo2_mono:
  assumes "0 < x" and "x \<le> y"
  shows "expo2 x \<le> expo2 y"
proof -
  have "(2::rat) powi expo2 x \<le> \<bar>x\<bar>" using expo2_bounds [of x] assms by simp
  also have "\<dots> \<le> \<bar>y\<bar>" using assms by simp
  also have "\<dots> < 2 powi (expo2 y + 1)" using expo2_bounds [of y] assms by simp
  finally have "(2::rat) powi expo2 x < 2 powi (expo2 y + 1)" .
  then have "expo2 x < expo2 y + 1"
    by (metis less_le_not_le not_le_imp_less one_less_numeral_iff power_int_increasing
        semiring_norm(76) less_imp_le)
  then show ?thesis by simp
qed

lemma binary64_mono_pos:
  assumes "0 < x" and "x \<le> y"
  shows "binary64 x \<le> binary64 y"
proof (cases "expo2 x = expo2 y")
  case True
  define s :: rat where "s = 2 powi (expo2 x - 52)"
  have s0: "0 < s" by (simp add: s_def)
  have "rne (x / s) \<le> rne (y / s)"
    using assms s0 by (intro rne_mono) (simp add: divide_right_mono)
  then have "(of_int (rne (x / s)) :: rat) * s \<le> of_int (rne (y / s)) * s"
    using s0 by (simp add: mult_right_mono)
  then show ?thesis using assms True by (simp add: binary64_def Let_def s_def)
next
  case False
  with expo2_mono [OF assms] have "expo2 x + 1 \<le> expo2 y" by simp
  then have "(2::rat) powi (expo2 x + 1) \<le> 2 powi expo2 y"
    by (intro power_int_increasing) simp_all
  moreover have "binary64 x \<le> 2 powi (expo2 x + 1)"
    using binary64_binade [OF assms(1)] by simp
  moreover have "2 powi expo2 y \<le> binary64 y"
    using binary64_binade [of y] assms by simp
  ultimately show ?thesis by linarith
qed

lemma binary64_mono:
  assumes "x \<le> y"
  shows "binary64 x \<le> binary64 y"
proof -
  consider "0 < x" | "x \<le> 0" "0 \<le> y" | "y < 0" by linarith
  then show ?thesis
  proof cases
    case 1
    then show ?thesis using assms by (rule binary64_mono_pos)
  next
    case 2
    have "0 \<le> binary64 (- x)" using 2(1) by (intro binary64_nonneg) simp
    then have "binary64 x \<le> 0" by (simp add: binary64_minus)
    moreover have "0 \<le> binary64 y" using 2(2) by (rule binary64_nonneg)
    ultimately show ?thesis by simp
  next
    case 3
    have "binary64 (- y) \<le> binary64 (- x)"
      using 3 assms by (intro binary64_mono_pos) simp_all
    then show ?thesis by (simp add: binary64_minus)
  qed
qed

subsection \<open>Values on the unit square\<close>

text \<open>
  The closed examples below use the bounds from (0, 0) to (1, 1), measured with
  \<open>equator_km\<close>: 5 by 5 cells at an interval of 22 km, one cell at 60 km, none at
  200 km.
\<close>

lemma equator_km_refl: "equator_km a a = Inr 0"
  by (simp add: equator_km_def)

lemma unit_square_counts:
  "grid_counts binary64 equator_km
     \<lparr>lo = \<lparr>lon = 0, lat = 0, aux = (Map.empty :: string \<rightharpoonup> int)\<rparr>,
      hi = \<lparr>lon = 1, lat = 1, aux = Map.empty\<rparr>\<rparr> 22 = Inr (5, 5)"
  "grid_counts binary64 equator_km
     \<lparr>lo = \<lparr>lon = 0, lat = 0, aux = (Map.empty :: string \<rightharpoonup> int)\<rparr>,
      hi = \<lparr>lon = 1, lat = 1, aux = Map.empty\<rparr>\<rparr> 60 = Inr (1, 1)"
  "grid_counts binary64 equator_km
     \<lparr>lo = \<lparr>lon = 0, lat = 0, aux = (Map.empty :: string \<rightharpoonup> int)\<rparr>,
      hi = \<lparr>lon = 1, lat = 1, aux = Map.empty\<rparr>\<rparr> 200 = Inr (0, 0)"
  "grid_counts binary64 equator_km
     \<lparr>lo = \<lparr>lon = 0, lat = 1, aux = (Map.empty :: string \<rightharpoonup> int)\<rparr>,
      hi = \<lparr>lon = 1, lat = 0, aux = Map.empty\<rparr>\<rparr> 60 = Inr (1, 1)"
  by code_simp+

lemma unit_square_sizes:
  "cell_sizes binary64
     \<lparr>lo = \<lparr>lon = 0, lat = 0, aux = (Map.empty :: string \<rightharpoonup> int)\<rparr>,
      hi = \<lparr>lon = 1, lat = 1, aux = Map.empty\<rparr>\<rparr> 5 5
   = Inr (3602879701896397 / 18014398509481984, 3602879701896397 / 18014398509481984)"
  "cell_sizes binary64
     \<lparr>lo = \<lparr>lon = 0, lat = 0, aux = (Map.empty :: string \<rightharpoonup> int)\<rparr>,
      hi = \<lparr>lon = 1, lat = 1, aux = Map.empty\<rparr>\<rparr> 1 1 = Inr (1, 1)"
  by code_simp+

lemma unit_square_cells:
  "cell_index binary64 0 0 (3602879701896397 / 18014398509481984)
     (3602879701896397 / 18014398509481984)
     \<lparr>lon = 0, lat = 1, aux = (Map.empty :: string \<rightharpoonup> int)\<rparr> = Inr (4, 0)"
  "cell_index binary64 0 0 1 1
     \<lparr>lon = 1 / 4, lat = 1 / 4, aux = (Map.empty :: string \<rightharpoonup> int)\<rparr> = Inr (0, 0)"
  "cell_index binary64 0 0 1 1
     \<lparr>lon = 1 / 2, lat = 1 / 2, aux = (Map.empty :: string \<rightharpoonup> int)\<rparr> = Inr (0, 0)"
  "cell_index binary64 0 0 1 1
     \<lparr>lon = 2, lat = 2, aux = (Map.empty :: string \<rightharpoonup> int)\<rparr> = Inr (2, 2)"
  by code_simp+

lemma binary64_values:
  "binary64 0 = 0" "binary64 1 = 1"
  "interpolate binary64 1 0 0 1 = Inr 1"
  "interpolate binary64 0 1 0 1 = Inr 0"
  by code_simp+

section \<open>Sampling a point set on a grid\<close>

lemma cell_index_Inr:
  assumes "lat_iv \<noteq> 0" and "lon_iv \<noteq> 0"
  shows "\<exists>i j. cell_index rnd ul_lat ul_lon lat_iv lon_iv p = Inr (i, j)"
proof -
  obtain qi where "float_floordiv rnd (rnd (lat p - ul_lat)) lat_iv = Inr qi"
    using float_floordiv_Inr [OF assms(1)] by blast
  moreover obtain qj where "float_floordiv rnd (rnd (lon p - ul_lon)) lon_iv = Inr qj"
    using float_floordiv_Inr [OF assms(2)] by blast
  ultimately show ?thesis by (simp add: cell_index_def)
qed

lemma sample_loop_subseq:
  "sample_loop rnd ul_lat ul_lon lat_iv lon_iv w h ps acc = Inr out
   \<Longrightarrow> \<exists>kept. out = acc @ kept \<and> subseq kept ps"
proof (induction ps arbitrary: acc)
  case Nil
  then show ?case by simp
next
  case (Cons p ps)
  from Cons.prems obtain i j where
    ij: "cell_index rnd ul_lat ul_lon lat_iv lon_iv p = Inr (i, j)"
    by (auto split: sum.splits)
  show ?case
  proof (cases "0 \<le> i \<and> i < h \<and> 0 \<le> j \<and> j < w")
    case True
    with Cons.prems ij
    have "sample_loop rnd ul_lat ul_lon lat_iv lon_iv w h ps (acc @ [p]) = Inr out"
      by simp
    from Cons.IH [OF this] obtain kept where "out = (acc @ [p]) @ kept" "subseq kept ps"
      by blast
    then have "out = acc @ (p # kept) \<and> subseq (p # kept) (p # ps)" by simp
    then show ?thesis by blast
  next
    case False
    with Cons.prems ij
    have "sample_loop rnd ul_lat ul_lon lat_iv lon_iv w h ps acc = Inr out"
      by auto
    from Cons.IH [OF this] obtain kept where "out = acc @ kept" "subseq kept ps"
      by blast
    then have "out = acc @ kept \<and> subseq kept (p # ps)" by (simp add: list_emb_Cons)
    then show ?thesis by blast
  qed
qed

lemma sample_loop_filter:
  assumes "lat_iv \<noteq> 0" and "lon_iv \<noteq> 0"
  shows "sample_loop rnd ul_lat ul_lon lat_iv lon_iv w h ps acc
         = Inr (acc @ filter (\<lambda>p. case cell_index rnd ul_lat ul_lon lat_iv lon_iv p of
                                   Inl e \<Rightarrow> False
                                 | Inr (i, j) \<Rightarrow> 0 \<le> i \<and> i < h \<and> 0 \<le> j \<and> j < w) ps)"
proof (induction ps arbitrary: acc)
  case Nil
  then show ?case by simp
next
  case (Cons p ps)
  obtain i j where ij: "cell_index rnd ul_lat ul_lon lat_iv lon_iv p = Inr (i, j)"
    using cell_index_Inr [OF assms] by blast
  show ?case by (simp add: ij Cons.IH)
qed

lemma grid_counts_Inr:
  assumes "grid_counts rnd geo b iv = Inr (w, h)"
  obtains width height qw qh where
    "geo (latlon (lo b)) (lat (hi b), lon (lo b)) = Inr height"
    "geo (latlon (lo b)) (lat (lo b), lon (hi b)) = Inr width"
    "float_floordiv rnd width iv = Inr qw"
    "float_floordiv rnd height iv = Inr qh"
    "w = py_int qw" "h = py_int qh" "iv \<noteq> 0"
proof -
  from assms obtain width height where
    wh: "get_wh geo b = Inr (width, height)"
    by (auto simp: grid_counts_def split: sum.splits)
  from assms wh obtain qw qh where
    q: "float_floordiv rnd width iv = Inr qw" "float_floordiv rnd height iv = Inr qh"
       "w = py_int qw" "h = py_int qh"
    by (auto simp: grid_counts_def split: sum.splits)
  from q(1) have "iv \<noteq> 0" by (auto simp: float_floordiv_def)
  moreover from wh have
    "geo (latlon (lo b)) (lat (hi b), lon (lo b)) = Inr height"
    "geo (latlon (lo b)) (lat (lo b), lon (hi b)) = Inr width"
    by (auto simp: get_wh_def split: sum.splits)
  ultimately show ?thesis using q that by blast
qed

lemma nonzero_counts_extent:
  assumes r0: "rnd 0 = 0"
    and refl: "\<forall>a. geo a a = Inr 0"
    and gc: "grid_counts rnd geo b iv = Inr (w, h)"
  shows "(h \<noteq> 0 \<longrightarrow> lat (hi b) \<noteq> lat (lo b)) \<and> (w \<noteq> 0 \<longrightarrow> lon (hi b) \<noteq> lon (lo b))"
proof -
  from gc obtain width height qw qh where f:
    "geo (latlon (lo b)) (lat (hi b), lon (lo b)) = Inr height"
    "geo (latlon (lo b)) (lat (lo b), lon (hi b)) = Inr width"
    "float_floordiv rnd width iv = Inr qw"
    "float_floordiv rnd height iv = Inr qh"
    "w = py_int qw" "h = py_int qh" "iv \<noteq> 0"
    by (rule grid_counts_Inr)
  have "h = 0" if "lat (hi b) = lat (lo b)"
  proof -
    from that f(1) refl have "height = 0" by (simp add: latlon_def)
    with f(4) float_floordiv_of_zero [of rnd iv, OF r0 f(7)] have "qh = 0" by simp
    then show ?thesis using f(6) by (simp add: py_int_def)
  qed
  moreover have "w = 0" if "lon (hi b) = lon (lo b)"
  proof -
    from that f(2) refl have "width = 0" by (simp add: latlon_def)
    with f(3) float_floordiv_of_zero [of rnd iv, OF r0 f(7)] have "qw = 0" by simp
    then show ?thesis using f(5) by (simp add: py_int_def)
  qed
  ultimately show ?thesis by blast
qed

lemma nonzero_counts_cell_sizes:
  assumes z: "\<forall>x. rnd x = 0 \<longleftrightarrow> x = 0"
    and refl: "\<forall>a. geo a a = Inr 0"
    and gc: "grid_counts rnd geo b iv = Inr (w, h)"
    and nz: "w \<noteq> 0" "h \<noteq> 0"
  shows "\<exists>lat_iv lon_iv. cell_sizes rnd b w h = Inr (lat_iv, lon_iv) \<and> lat_iv \<noteq> 0 \<and> lon_iv \<noteq> 0"
proof -
  have r0: "rnd 0 = 0" using z by simp
  from nonzero_counts_extent [OF r0 refl gc] nz
  have "lat (hi b) \<noteq> lat (lo b)" "lon (hi b) \<noteq> lon (lo b)" by simp_all
  then show ?thesis
    using z nz by (simp add: cell_sizes_def float_truediv_int_def Let_def)
qed

lemma Coords_sample_Inr_subseq:
  assumes "Coords_sample rnd geo c b iv = Inr out"
  shows "subseq (coords out) (coords c)"
proof -
  from assms obtain w h lat_iv lon_iv acc where
    "sample_loop rnd (lat (lo b)) (lon (lo b)) lat_iv lon_iv w h (coords c) [] = Inr acc"
    and out: "out = \<lparr>coords = acc\<rparr>"
    by (auto simp: Coords_sample_def split: sum.splits)
  from sample_loop_subseq [OF this(1)] out show ?thesis by simp
qed

lemma Coords_sample_filter:
  assumes "grid_counts rnd geo b iv = Inr (w, h)"
    and "cell_sizes rnd b w h = Inr (lat_iv, lon_iv)"
    and "lat_iv \<noteq> 0" and "lon_iv \<noteq> 0"
  shows "Coords_sample rnd geo c b iv
         = Inr \<lparr>coords = filter (\<lambda>p. case cell_index rnd (lat (lo b)) (lon (lo b)) lat_iv lon_iv p of
                                        Inl e \<Rightarrow> False
                                      | Inr (i, j) \<Rightarrow> 0 \<le> i \<and> i < h \<and> 0 \<le> j \<and> j < w)
                          (coords c)\<rparr>"
  using assms(1,2)
  by (simp add: Coords_sample_def sample_loop_filter [OF assms(3,4)])

lemma cell_sizes_exact:
  assumes "w \<noteq> 0" and "h \<noteq> 0"
  shows "cell_sizes (\<lambda>x. x) b w h
         = Inr ((lat (hi b) - lat (lo b)) / of_int h, (lon (hi b) - lon (lo b)) / of_int w)"
  using assms by (simp add: cell_sizes_def float_truediv_int_def)

lemma cell_index_exact:
  assumes "lat_iv \<noteq> 0" and "lon_iv \<noteq> 0"
  shows "cell_index (\<lambda>x. x) ul_lat ul_lon lat_iv lon_iv p
         = Inr (\<lfloor>(lat p - ul_lat) / lat_iv\<rfloor>, \<lfloor>(lon p - ul_lon) / lon_iv\<rfloor>)"
  using assms by (simp add: cell_index_def float_floordiv_exact py_int_def)

text \<open>
  C9. Whenever \<open>Coords.sample\<close> returns, its output is a subsequence of the input
  point set: the retained points keep their relative order and no other point
  appears. It does return when the cell counts are positive, provided that the
  distance from a point to itself is zero and that rounding maps only zero to zero.
\<close>

theorem Coords_sample_subseq:
  "(Coords_sample rnd geo c b iv = Inr out \<longrightarrow> subseq (coords out) (coords c)) \<and>
   ((\<forall>x. rnd x = 0 \<longleftrightarrow> x = 0) \<and> (\<forall>a. geo a a = Inr 0) \<and>
    grid_counts rnd geo b iv = Inr (w, h) \<and> 1 \<le> w \<and> 1 \<le> h
    \<longrightarrow> (\<exists>res. Coords_sample rnd geo c b iv = Inr res \<and> subseq (coords res) (coords c)))"
proof (intro conjI impI)
  assume "Coords_sample rnd geo c b iv = Inr out"
  then show "subseq (coords out) (coords c)" by (rule Coords_sample_Inr_subseq)
next
  assume a: "(\<forall>x. rnd x = 0 \<longleftrightarrow> x = 0) \<and> (\<forall>a. geo a a = Inr 0) \<and>
    grid_counts rnd geo b iv = Inr (w, h) \<and> 1 \<le> w \<and> 1 \<le> h"
  then have "w \<noteq> 0" "h \<noteq> 0" by auto
  with a nonzero_counts_cell_sizes [of rnd geo b iv w h]
  obtain lat_iv lon_iv where
    cs: "cell_sizes rnd b w h = Inr (lat_iv, lon_iv)" "lat_iv \<noteq> 0" "lon_iv \<noteq> 0"
    by blast
  from a have gc: "grid_counts rnd geo b iv = Inr (w, h)" by simp
  from Coords_sample_filter [OF gc cs, of c]
  obtain res where res: "Coords_sample rnd geo c b iv = Inr res" by blast
  with Coords_sample_Inr_subseq [OF res]
  show "\<exists>res. Coords_sample rnd geo c b iv = Inr res \<and> subseq (coords res) (coords c)"
    by blast
qed

theorem Coords_sample_subseq_witness:
  "Coords_sample binary64 equator_km
     \<lparr>coords = [\<lparr>lon = 1 / 4, lat = 1 / 4, aux = (Map.empty :: string \<rightharpoonup> int)\<rparr>,
                \<lparr>lon = 2, lat = 2, aux = Map.empty\<rparr>]\<rparr>
     \<lparr>lo = \<lparr>lon = 0, lat = 0, aux = (Map.empty :: string \<rightharpoonup> int)\<rparr>,
      hi = \<lparr>lon = 1, lat = 1, aux = Map.empty\<rparr>\<rparr> 60
   = Inr \<lparr>coords = [\<lparr>lon = 1 / 4, lat = 1 / 4, aux = Map.empty\<rparr>]\<rparr> \<and>
   subseq [\<lparr>lon = 1 / 4, lat = 1 / 4, aux = (Map.empty :: string \<rightharpoonup> int)\<rparr>]
          [\<lparr>lon = 1 / 4, lat = 1 / 4, aux = Map.empty\<rparr>, \<lparr>lon = 2, lat = 2, aux = Map.empty\<rparr>]"
proof -
  have run: "Coords_sample binary64 equator_km
     \<lparr>coords = [\<lparr>lon = 1 / 4, lat = 1 / 4, aux = (Map.empty :: string \<rightharpoonup> int)\<rparr>,
                \<lparr>lon = 2, lat = 2, aux = Map.empty\<rparr>]\<rparr>
     \<lparr>lo = \<lparr>lon = 0, lat = 0, aux = (Map.empty :: string \<rightharpoonup> int)\<rparr>,
      hi = \<lparr>lon = 1, lat = 1, aux = Map.empty\<rparr>\<rparr> 60
   = Inr \<lparr>coords = [\<lparr>lon = 1 / 4, lat = 1 / 4, aux = Map.empty\<rparr>]\<rparr>"
    by (simp add: Coords_sample_def unit_square_counts unit_square_sizes unit_square_cells)
  show ?thesis
    using run
      Coords_sample_subseq [of binary64 equator_km
        "\<lparr>coords = [\<lparr>lon = 1 / 4, lat = 1 / 4, aux = (Map.empty :: string \<rightharpoonup> int)\<rparr>,
                \<lparr>lon = 2, lat = 2, aux = Map.empty\<rparr>]\<rparr>"
        "\<lparr>lo = \<lparr>lon = 0, lat = 0, aux = (Map.empty :: string \<rightharpoonup> int)\<rparr>,
          hi = \<lparr>lon = 1, lat = 1, aux = Map.empty\<rparr>\<rparr>" 60
        "\<lparr>coords = [\<lparr>lon = 1 / 4, lat = 1 / 4, aux = Map.empty\<rparr>]\<rparr>" 1 1]
    by (simp add: binary64_zero_iff equator_km_refl unit_square_counts)
qed




text \<open>
  In exact arithmetic a point on the high edge of the bounds has the row index
  \<open>hcnt\<close> or the column index \<open>wcnt\<close>, and is dropped.
\<close>

theorem hi_edge_excluded_exact:
  assumes refl: "\<forall>a. geo a a = Inr 0"
    and gc: "grid_counts (\<lambda>x. x) geo b iv = Inr (w, h)"
    and pos: "1 \<le> w" "1 \<le> h"
    and edge: "lat p = lat (hi b) \<or> lon p = lon (hi b)"
  shows "\<exists>out. Coords_sample (\<lambda>x. x) geo c b iv = Inr out \<and> p \<notin> set (coords out)"
proof -
  have nz: "w \<noteq> 0" "h \<noteq> 0" using pos by auto
  from nonzero_counts_extent [OF _ refl gc] nz
  have ext: "lat (hi b) \<noteq> lat (lo b)" "lon (hi b) \<noteq> lon (lo b)" by simp_all
  define lat_iv where "lat_iv = (lat (hi b) - lat (lo b)) / of_int h"
  define lon_iv where "lon_iv = (lon (hi b) - lon (lo b)) / of_int w"
  have iv: "lat_iv \<noteq> 0" "lon_iv \<noteq> 0" using ext nz by (simp_all add: lat_iv_def lon_iv_def)
  have cs: "cell_sizes (\<lambda>x. x) b w h = Inr (lat_iv, lon_iv)"
    using nz by (simp add: cell_sizes_exact lat_iv_def lon_iv_def)
  have top: "(lat (hi b) - lat (lo b)) / lat_iv = of_int h"
    using ext nz by (simp add: lat_iv_def)
  have right: "(lon (hi b) - lon (lo b)) / lon_iv = of_int w"
    using ext nz by (simp add: lon_iv_def)
  have "\<not> (case cell_index (\<lambda>x. x) (lat (lo b)) (lon (lo b)) lat_iv lon_iv p of
            Inl e \<Rightarrow> False
          | Inr (i, j) \<Rightarrow> 0 \<le> i \<and> i < h \<and> 0 \<le> j \<and> j < w)"
    using edge top right by (auto simp: cell_index_exact [OF iv])
  then show ?thesis
    by (simp add: Coords_sample_filter [OF gc cs iv])
qed

text \<open>
  C8, at an input where the code departs from it. With 5 rows over the latitudes
  from 0 to 1 the cell size is the float nearest to 1/5, which is above 1/5; the floor
  division of 1 by it gives 4, so the point of latitude 1, on the high edge, gets the
  row index 4 and is retained.
\<close>

theorem hi_edge_retained:
  "lat \<lparr>lon = 0, lat = 1, aux = (Map.empty :: string \<rightharpoonup> int)\<rparr>
     = lat (hi \<lparr>lo = \<lparr>lon = 0, lat = 0, aux = (Map.empty :: string \<rightharpoonup> int)\<rparr>,
                hi = \<lparr>lon = 1, lat = 1, aux = Map.empty\<rparr>\<rparr>) \<and>
   grid_counts binary64 equator_km
     \<lparr>lo = \<lparr>lon = 0, lat = 0, aux = (Map.empty :: string \<rightharpoonup> int)\<rparr>,
      hi = \<lparr>lon = 1, lat = 1, aux = Map.empty\<rparr>\<rparr> 22 = Inr (5, 5) \<and>
   Coords_sample binary64 equator_km
     \<lparr>coords = [\<lparr>lon = 0, lat = 1, aux = (Map.empty :: string \<rightharpoonup> int)\<rparr>]\<rparr>
     \<lparr>lo = \<lparr>lon = 0, lat = 0, aux = (Map.empty :: string \<rightharpoonup> int)\<rparr>,
      hi = \<lparr>lon = 1, lat = 1, aux = Map.empty\<rparr>\<rparr> 22
   = Inr \<lparr>coords = [\<lparr>lon = 0, lat = 1, aux = Map.empty\<rparr>]\<rparr>"
  by (simp add: Coords_sample_def unit_square_counts unit_square_sizes unit_square_cells)

section \<open>Generating a grid from bounds\<close>

lemma interpolate_Inr:
  "cnt \<noteq> 0 \<Longrightarrow>
   interpolate rnd l h k cnt = Inr (rnd (l + rnd (rnd (of_int k / of_int cnt) * rnd (h - l))))"
  by (simp add: interpolate_def int_truediv_def)

lemma sample_row_map:
  assumes "wcnt \<noteq> 0"
  shows "sample_row rnd b wcnt y js acc
         = Inr (acc @ map (\<lambda>j. \<lparr>lon = rnd (lon (lo b) + rnd (rnd (of_nat j / of_int wcnt)
                                            * rnd (lon (hi b) - lon (lo b)))),
                                 lat = y, aux = Map.empty\<rparr>) js)"
  by (induction js arbitrary: acc) (simp_all add: interpolate_Inr [OF assms])

lemma sample_row_range:
  "sample_row rnd b wcnt y [0..<nat wcnt] acc
   = Inr (acc @ map (\<lambda>j. \<lparr>lon = rnd (lon (lo b) + rnd (rnd (of_nat j / of_int wcnt)
                                      * rnd (lon (hi b) - lon (lo b)))),
                           lat = y, aux = Map.empty\<rparr>) [0..<nat wcnt])"
  by (cases "wcnt = 0") (simp_all add: sample_row_map)

lemma sample_rows_map:
  assumes "hcnt \<noteq> 0"
  shows "sample_rows rnd b wcnt hcnt is acc
         = Inr (acc @ concat (map (\<lambda>i. map (\<lambda>j.
                   \<lparr>lon = rnd (lon (lo b) + rnd (rnd (of_nat j / of_int wcnt)
                                  * rnd (lon (hi b) - lon (lo b)))),
                    lat = rnd (lat (lo b) + rnd (rnd (of_nat i / of_int hcnt)
                                  * rnd (lat (hi b) - lat (lo b)))),
                    aux = Map.empty\<rparr>) [0..<nat wcnt]) is))"
  by (induction "is" arbitrary: acc)
     (simp_all add: interpolate_Inr [OF assms] sample_row_range)

lemma sample_rows_no_columns:
  "hcnt \<noteq> 0 \<Longrightarrow> sample_rows rnd b 0 hcnt is acc = Inr acc"
  by (induction "is" arbitrary: acc) (simp_all add: interpolate_Inr)

lemma interpolate_within:
  fixes rnd :: "rat \<Rightarrow> rat" and u l h :: rat and k cnt :: int
  assumes mono: "\<And>x y. x \<le> y \<Longrightarrow> rnd x \<le> rnd y"
    and err: "\<And>x. \<bar>rnd x - x\<bar> \<le> u * \<bar>x\<bar>"
    and fl: "rnd l = l" and fh: "rnd h = h"
    and lh: "l \<le> h"
    and k: "0 \<le> k" "k < cnt"
    and small: "(1 + u) ^ 3 * (of_int cnt - 1) \<le> of_int cnt"
  shows "l \<le> rnd (l + rnd (rnd (of_int k / of_int cnt) * rnd (h - l))) \<and>
         rnd (l + rnd (rnd (of_int k / of_int cnt) * rnd (h - l))) \<le> h"
proof -
  have u0: "0 \<le> u" using err [of 1] by simp
  have r0: "rnd 0 = 0" using err [of 0] by simp
  have nn: "0 \<le> rnd x" if "0 \<le> x" for x using mono [OF that] r0 by simp
  have up: "rnd x \<le> (1 + u) * x" if "0 \<le> x" for x
    using err [of x] that by (simp add: algebra_simps abs_le_iff)
  define d where "d = h - l"
  define t0 :: rat where "t0 = of_int k / of_int cnt"
  define D where "D = rnd d"
  define t where "t = rnd t0"
  define P where "P = rnd (t * D)"
  have cnt0: "0 < (of_int cnt :: rat)" using k by simp
  have d0: "0 \<le> d" using lh by (simp add: d_def)
  have t00: "0 \<le> t0" using k by (simp add: t0_def)
  have t0le: "t0 \<le> (of_int cnt - 1) / of_int cnt"
  proof -
    have "k \<le> cnt - 1" using k by simp
    then have "(of_int k :: rat) \<le> of_int (cnt - 1)" by (simp only: of_int_le_iff)
    then show ?thesis using cnt0 by (simp add: t0_def divide_right_mono)
  qed
  have D: "0 \<le> D" "D \<le> (1 + u) * d" unfolding D_def using d0 nn up by simp_all
  have t: "0 \<le> t" "t \<le> (1 + u) * t0" unfolding t_def using t00 nn up by simp_all
  have tD0: "0 \<le> t * D" using D(1) t(1) by simp
  have tD: "t * D \<le> ((1 + u) * t0) * ((1 + u) * d)"
    using t D u0 t00 d0 by (intro mult_mono) simp_all
  have P0: "0 \<le> P" unfolding P_def using tD0 by (rule nn)
  have "P \<le> (1 + u) * (t * D)" unfolding P_def using tD0 by (rule up)
  also have "\<dots> \<le> (1 + u) * (((1 + u) * t0) * ((1 + u) * d))"
    using tD u0 by (intro mult_left_mono) simp_all
  also have "\<dots> = ((1 + u) ^ 3 * t0) * d" by (simp add: power3_eq_cube algebra_simps)
  also have "\<dots> \<le> 1 * d"
  proof (intro mult_right_mono d0)
    have "(1 + u) ^ 3 * t0 \<le> (1 + u) ^ 3 * ((of_int cnt - 1) / of_int cnt)"
      using t0le u0 by (intro mult_left_mono) simp_all
    also have "\<dots> = ((1 + u) ^ 3 * (of_int cnt - 1)) / of_int cnt" by simp
    also have "\<dots> \<le> 1" using small cnt0 by (simp add: field_simps)
    finally show "(1 + u) ^ 3 * t0 \<le> 1" .
  qed
  finally have Pd: "P \<le> d" by simp
  have "rnd l \<le> rnd (l + P)" using P0 by (intro mono) simp
  moreover have "rnd (l + P) \<le> rnd h" using Pd by (intro mono) (simp add: d_def)
  ultimately show ?thesis
    unfolding P_def t_def D_def t0_def d_def fl fh by simp
qed

text \<open>
  C2, as the code has it. When a cell count is zero, \<open>Bounds.sample\<close> returns an
  empty point set without failing, and \<open>Coords.sample\<close> fails with
  \<open>ZeroDivisionError\<close>, raised by the division that computes the cell sizes.
\<close>

theorem degenerate_grid:
  assumes "rnd 0 = 0"
    and "grid_counts rnd geo b iv = Inr (wcnt, hcnt)"
    and "wcnt = 0 \<or> hcnt = 0"
  shows "Bounds_sample rnd geo b iv = Inr (\<lparr>coords = []\<rparr> :: 'w Coords) \<and>
         Coords_sample rnd geo c b iv = Inl ZeroDivisionError"
proof
  show "Bounds_sample rnd geo b iv = Inr (\<lparr>coords = []\<rparr> :: 'w Coords)"
  proof (cases "hcnt = 0")
    case True
    then show ?thesis using assms(2) by (simp add: Bounds_sample_def)
  next
    case False
    with assms(3) have "wcnt = 0" by simp
    then show ?thesis
      using assms(2)
      by (simp add: Bounds_sample_def sample_rows_no_columns [OF False])
  qed
next
  have "cell_sizes rnd b wcnt hcnt = Inl ZeroDivisionError"
    using assms(1,3)
    by (auto simp: cell_sizes_def float_truediv_int_def Let_def split: sum.splits)
  then show "Coords_sample rnd geo c b iv = Inl ZeroDivisionError"
    using assms(2) by (simp add: Coords_sample_def)
qed

theorem degenerate_grid_witness:
  "Bounds_sample binary64 equator_km
     \<lparr>lo = \<lparr>lon = 0, lat = 0, aux = (Map.empty :: string \<rightharpoonup> int)\<rparr>,
      hi = \<lparr>lon = 1, lat = 1, aux = Map.empty\<rparr>\<rparr> 200
   = Inr \<lparr>coords = ([] :: int Point list)\<rparr> \<and>
   Coords_sample binary64 equator_km
     \<lparr>coords = [\<lparr>lon = 1 / 4, lat = 1 / 4, aux = (Map.empty :: string \<rightharpoonup> int)\<rparr>]\<rparr>
     \<lparr>lo = \<lparr>lon = 0, lat = 0, aux = (Map.empty :: string \<rightharpoonup> int)\<rparr>,
      hi = \<lparr>lon = 1, lat = 1, aux = Map.empty\<rparr>\<rparr> 200
   = Inl ZeroDivisionError"
  using degenerate_grid [of binary64 equator_km
        "\<lparr>lo = \<lparr>lon = 0, lat = 0, aux = (Map.empty :: string \<rightharpoonup> int)\<rparr>,
          hi = \<lparr>lon = 1, lat = 1, aux = Map.empty\<rparr>\<rparr>" 200 0 0
        "\<lparr>coords = [\<lparr>lon = 1 / 4, lat = 1 / 4, aux = (Map.empty :: string \<rightharpoonup> int)\<rparr>]\<rparr>",
        where ?'w = int]
  by (simp add: binary64_values unit_square_counts)

text \<open>
  An interval of 200 km on bounds about 111 km wide: both counts are zero,
  \<open>Bounds.sample\<close> returns the empty point set and \<open>Coords.sample\<close> divides by zero.
\<close>

theorem degenerate_grid_counterexample:
  "grid_counts binary64 equator_km
     \<lparr>lo = \<lparr>lon = 0, lat = 0, aux = (Map.empty :: string \<rightharpoonup> int)\<rparr>,
      hi = \<lparr>lon = 1, lat = 1, aux = Map.empty\<rparr>\<rparr> 200 = Inr (0, 0) \<and>
   Bounds_sample binary64 equator_km
     \<lparr>lo = \<lparr>lon = 0, lat = 0, aux = (Map.empty :: string \<rightharpoonup> int)\<rparr>,
      hi = \<lparr>lon = 1, lat = 1, aux = Map.empty\<rparr>\<rparr> 200
   = Inr \<lparr>coords = ([] :: int Point list)\<rparr> \<and>
   Coords_sample binary64 equator_km
     \<lparr>coords = [\<lparr>lon = 1 / 2, lat = 1 / 2, aux = (Map.empty :: string \<rightharpoonup> int)\<rparr>]\<rparr>
     \<lparr>lo = \<lparr>lon = 0, lat = 0, aux = (Map.empty :: string \<rightharpoonup> int)\<rparr>,
      hi = \<lparr>lon = 1, lat = 1, aux = Map.empty\<rparr>\<rparr> 200
   = Inl ZeroDivisionError"
  by (simp add: Bounds_sample_def Coords_sample_def unit_square_counts cell_sizes_def
      float_truediv_int_def binary64_values)

text \<open>
  C3, as the code has it. For positive cell counts \<open>Bounds.sample\<close> returns
  exactly \<open>wcnt * hcnt\<close> points in row-major order, rows by ascending \<open>i\<close> and
  columns by ascending \<open>j\<close>, with \<open>lat = lo.lat + (i / hcnt) * (hi.lat - lo.lat)\<close> and
  \<open>lon = lo.lon + (j / wcnt) * (hi.lon - lo.lon)\<close>, every operation rounded. The points
  lie between \<open>lo\<close> and \<open>hi\<close> when \<open>lo\<close> is componentwise below \<open>hi\<close>, which the
  constructor of \<open>Bounds\<close> does not enforce, and the rounding is monotone, leaves the
  four coordinates of the bounds unchanged and has a relative error \<open>u\<close> with
  \<open>(1 + u) ^ 3 * (cnt - 1) \<le> cnt\<close> for both counts (for binary64, counts up to
  \<open>2 ^ 51\<close>).
\<close>

theorem Bounds_sample_grid:
  assumes gc: "grid_counts rnd geo b iv = Inr (wcnt, hcnt)"
    and pos: "1 \<le> wcnt" "1 \<le> hcnt"
  shows "\<exists>out :: 'w Coords. Bounds_sample rnd geo b iv = Inr out \<and>
           coords out =
             concat (map (\<lambda>i. map (\<lambda>j.
                \<lparr>lon = rnd (lon (lo b) + rnd (rnd (of_nat j / of_int wcnt)
                              * rnd (lon (hi b) - lon (lo b)))),
                 lat = rnd (lat (lo b) + rnd (rnd (of_nat i / of_int hcnt)
                              * rnd (lat (hi b) - lat (lo b)))),
                 aux = Map.empty\<rparr>) [0..<nat wcnt]) [0..<nat hcnt]) \<and>
           int (length (coords out)) = wcnt * hcnt \<and>
           ((\<forall>x y. x \<le> y \<longrightarrow> rnd x \<le> rnd y) \<and>
            (\<forall>x. \<bar>rnd x - x\<bar> \<le> u * \<bar>x\<bar>) \<and>
            (1 + u) ^ 3 * (of_int wcnt - 1) \<le> of_int wcnt \<and>
            (1 + u) ^ 3 * (of_int hcnt - 1) \<le> of_int hcnt \<and>
            rnd (lon (lo b)) = lon (lo b) \<and> rnd (lon (hi b)) = lon (hi b) \<and>
            rnd (lat (lo b)) = lat (lo b) \<and> rnd (lat (hi b)) = lat (hi b) \<and>
            lon (lo b) \<le> lon (hi b) \<and> lat (lo b) \<le> lat (hi b)
            \<longrightarrow> (\<forall>p \<in> set (coords out).
                   lon (lo b) \<le> lon p \<and> lon p \<le> lon (hi b) \<and>
                   lat (lo b) \<le> lat p \<and> lat p \<le> lat (hi b)))"
proof -
  let ?pt = "\<lambda>i j.
       \<lparr>lon = rnd (lon (lo b) + rnd (rnd (of_nat j / of_int wcnt)
                     * rnd (lon (hi b) - lon (lo b)))),
        lat = rnd (lat (lo b) + rnd (rnd (of_nat i / of_int hcnt)
                     * rnd (lat (hi b) - lat (lo b)))),
        aux = (Map.empty :: string \<rightharpoonup> 'w)\<rparr>"
  let ?grid = "concat (map (\<lambda>i. map (?pt i) [0..<nat wcnt]) [0..<nat hcnt])"
  have h0: "hcnt \<noteq> 0" using pos by simp
  have run: "Bounds_sample rnd geo b iv = Inr \<lparr>coords = ?grid\<rparr>"
    using gc by (simp add: Bounds_sample_def sample_rows_map [OF h0])
  have len: "int (length ?grid) = wcnt * hcnt"
  proof -
    have "length ?grid = nat hcnt * nat wcnt"
      by (simp add: length_concat comp_def sum_list_triv)
    then have "int (length ?grid) = int (nat hcnt * nat wcnt)" by (simp only:)
    also have "\<dots> = wcnt * hcnt" using pos by (simp add: mult.commute)
    finally show ?thesis .
  qed
  have within: "lon (lo b) \<le> lon p \<and> lon p \<le> lon (hi b) \<and>
                lat (lo b) \<le> lat p \<and> lat p \<le> lat (hi b)"
    if hyp: "(\<forall>x y. x \<le> y \<longrightarrow> rnd x \<le> rnd y) \<and>
            (\<forall>x. \<bar>rnd x - x\<bar> \<le> u * \<bar>x\<bar>) \<and>
            (1 + u) ^ 3 * (of_int wcnt - 1) \<le> of_int wcnt \<and>
            (1 + u) ^ 3 * (of_int hcnt - 1) \<le> of_int hcnt \<and>
            rnd (lon (lo b)) = lon (lo b) \<and> rnd (lon (hi b)) = lon (hi b) \<and>
            rnd (lat (lo b)) = lat (lo b) \<and> rnd (lat (hi b)) = lat (hi b) \<and>
            lon (lo b) \<le> lon (hi b) \<and> lat (lo b) \<le> lat (hi b)"
      and p: "p \<in> set ?grid" for p
  proof -
    from p obtain i j where ij: "i < nat hcnt" "j < nat wcnt" "p = ?pt i j"
      by auto
    have mono: "\<And>x y. x \<le> y \<Longrightarrow> rnd x \<le> rnd y" using hyp by blast
    have err: "\<And>x. \<bar>rnd x - x\<bar> \<le> u * \<bar>x\<bar>" using hyp by blast
    have "lon (lo b) \<le> lon (?pt i j) \<and> lon (?pt i j) \<le> lon (hi b)"
      using interpolate_within [of rnd u "lon (lo b)" "lon (hi b)" "int j" wcnt, OF mono err]
        hyp ij(2) by simp
    moreover have "lat (lo b) \<le> lat (?pt i j) \<and> lat (?pt i j) \<le> lat (hi b)"
      using interpolate_within [of rnd u "lat (lo b)" "lat (hi b)" "int i" hcnt, OF mono err]
        hyp ij(1) by simp
    ultimately show ?thesis using ij(3) by simp
  qed
  show ?thesis
  proof (intro exI [of _ "\<lparr>coords = ?grid\<rparr>"] conjI impI ballI)
    show "Bounds_sample rnd geo b iv = Inr \<lparr>coords = ?grid\<rparr>" by (rule run)
  qed (use len within in simp_all)
qed

theorem Bounds_sample_grid_witness:
  "\<exists>out :: int Coords.
     Bounds_sample binary64 equator_km
       \<lparr>lo = \<lparr>lon = 0, lat = 0, aux = (Map.empty :: string \<rightharpoonup> int)\<rparr>,
        hi = \<lparr>lon = 1, lat = 1, aux = Map.empty\<rparr>\<rparr> 22 = Inr out \<and>
     int (length (coords out)) = 25 \<and>
     (\<forall>p \<in> set (coords out). 0 \<le> lon p \<and> lon p \<le> 1 \<and> 0 \<le> lat p \<and> lat p \<le> 1)"
proof -
  have e: "\<forall>x. \<bar>binary64 x - x\<bar> \<le> 1 / 2 ^ 53 * \<bar>x\<bar>"
    using binary64_error by simp
  have m: "\<forall>x y. x \<le> y \<longrightarrow> binary64 x \<le> binary64 y"
    using binary64_mono by blast
  have s: "(1 + 1 / 2 ^ 53) ^ 3 * (of_int 5 - 1) \<le> (of_int 5 :: rat)"
    by code_simp
  from Bounds_sample_grid [of binary64 equator_km
        "\<lparr>lo = \<lparr>lon = 0, lat = 0, aux = (Map.empty :: string \<rightharpoonup> int)\<rparr>,
          hi = \<lparr>lon = 1, lat = 1, aux = Map.empty\<rparr>\<rparr>" 22 5 5 "1 / 2 ^ 53",
        where ?'w = int]
  obtain out :: "int Coords" where
    "Bounds_sample binary64 equator_km
       \<lparr>lo = \<lparr>lon = 0, lat = 0, aux = (Map.empty :: string \<rightharpoonup> int)\<rparr>,
        hi = \<lparr>lon = 1, lat = 1, aux = Map.empty\<rparr>\<rparr> 22 = Inr out"
    "int (length (coords out)) = 25"
    "\<forall>p \<in> set (coords out). 0 \<le> lon p \<and> lon p \<le> 1 \<and> 0 \<le> lat p \<and> lat p \<le> 1"
    using e m s by (auto simp: unit_square_counts binary64_values)
  then show ?thesis by blast
qed

text \<open>
  Bounds whose \<open>lo\<close> has the greater latitude, as those of the module's own
  \<open>__main__\<close> block: the point generated has the latitude 1, above \<open>hi.lat = 0\<close>.
\<close>

theorem inverted_bounds_counterexample:
  "1 \<le> (1 :: int) \<and>
   grid_counts binary64 equator_km
     \<lparr>lo = \<lparr>lon = 0, lat = 1, aux = (Map.empty :: string \<rightharpoonup> int)\<rparr>,
      hi = \<lparr>lon = 1, lat = 0, aux = Map.empty\<rparr>\<rparr> 60 = Inr (1, 1) \<and>
   Bounds_sample binary64 equator_km
     \<lparr>lo = \<lparr>lon = 0, lat = 1, aux = (Map.empty :: string \<rightharpoonup> int)\<rparr>,
      hi = \<lparr>lon = 1, lat = 0, aux = Map.empty\<rparr>\<rparr> 60
   = Inr \<lparr>coords = [\<lparr>lon = 0, lat = 1, aux = (Map.empty :: string \<rightharpoonup> int)\<rparr>]\<rparr> \<and>
   \<not> (lat \<lparr>lon = 0, lat = 1, aux = (Map.empty :: string \<rightharpoonup> int)\<rparr>
        \<le> lat (hi \<lparr>lo = \<lparr>lon = 0, lat = 1, aux = (Map.empty :: string \<rightharpoonup> int)\<rparr>,
                   hi = \<lparr>lon = 1, lat = 0, aux = Map.empty\<rparr>\<rparr>))"
  by (simp add: Bounds_sample_def unit_square_counts binary64_values)

end
